theory Spec2Isabelle
  imports Main "HOL-Library.AList"
begin

section \<open>JavaScript values and the JSON codec\<close>

text \<open>
  The facade passes values of type \<^verbatim>\<open>any\<close> to the store and through
  \<^verbatim>\<open>JSON.stringify\<close> / \<^verbatim>\<open>JSON.parse\<close>. The model has \<^verbatim>\<open>null\<close>, booleans,
  numbers that are integers, the three numbers that are not finite, strings, arrays,
  plain objects (an object is the list of its properties in enumeration order) and
  \<^verbatim>\<open>Date\<close> objects, as in the \<^verbatim>\<open>createdAt: Date\<close> field of the entity in the
  documentation's cache example. A date is given by its ISO text, the string its
  \<^verbatim>\<open>toJSON\<close> method returns.

  The model has limits, which the predicate \<open>json_data\<close> below and the statements that
  depend on them name: a number is an integer (a fraction and negative zero have no value
  here, and an integer stands for a number of the runtime only when it is a safe integer,
  of magnitude below \<open>2\<^sup>5\<^sup>3\<close>); a character of a string is one of the 256 characters
  up to U+00FF. \<^verbatim>\<open>undefined\<close>, functions and symbols have no value here either.
\<close>

datatype nonfinite =
    NaN
  | PosInfinity
  | NegInfinity

datatype jsval =
    JNull
  | JBool bool
  | JNum int
  | JStr string
  | JArr "jsval list"
  | JObj "(string \<times> jsval) list"
  | JDate string
  | JNonFinite nonfinite

text \<open>The \<^verbatim>\<open>typeof\<close> operator: \<^verbatim>\<open>typeof null\<close> is \<^verbatim>\<open>"object"\<close>, as for arrays.\<close>

fun typeof :: "jsval \<Rightarrow> string" where
  "typeof JNull = ''object''"
| "typeof (JBool b) = ''boolean''"
| "typeof (JNum n) = ''number''"
| "typeof (JStr s) = ''string''"
| "typeof (JArr vs) = ''object''"
| "typeof (JObj kvs) = ''object''"
| "typeof (JDate d) = ''object''"
| "typeof (JNonFinite x) = ''number''"


subsection \<open>\<^verbatim>\<open>JSON.stringify\<close>\<close>

text \<open>
  The serializer of the runtime, without indentation: integers in decimal, strings quoted
  with the escapes of the standard (the two-character escapes, and a \<^verbatim>\<open>u\<close> escape with
  lower-case hexadecimal digits for the other control characters), arrays and objects
  with \<^verbatim>\<open>,\<close> and \<^verbatim>\<open>:\<close> and no white space. A date has a \<^verbatim>\<open>toJSON\<close> method:
  it is written as the quoted string of its ISO text. A number that is not finite is
  written as \<^verbatim>\<open>null\<close>. The decimal digits are those of the runtime for the safe
  integers.
\<close>

definition digit_char :: "nat \<Rightarrow> char" where
  "digit_char d = char_of (48 + d)"

fun show_nat :: "nat \<Rightarrow> string" where
  "show_nat n = (if n < 10 then [digit_char n] else show_nat (n div 10) @ [digit_char (n mod 10)])"

declare show_nat.simps [simp del]

definition show_int :: "int \<Rightarrow> string" where
  "show_int i = (if i < 0 then CHR ''-'' # show_nat (nat (- i)) else show_nat (nat i))"

definition hex_char :: "nat \<Rightarrow> char" where
  "hex_char d = (if d < 10 then char_of (48 + d) else char_of (87 + d))"

definition quote_char :: "char \<Rightarrow> string" where
  "quote_char c =
     (if c = CHR 0x08 then [CHR 0x5C, CHR ''b'']
      else if c = CHR 0x09 then [CHR 0x5C, CHR ''t'']
      else if c = CHR 0x0A then [CHR 0x5C, CHR ''n'']
      else if c = CHR 0x0C then [CHR 0x5C, CHR ''f'']
      else if c = CHR 0x0D then [CHR 0x5C, CHR ''r'']
      else if c = CHR 0x22 then [CHR 0x5C, CHR 0x22]
      else if c = CHR 0x5C then [CHR 0x5C, CHR 0x5C]
      else if (of_char c :: nat) < 32
        then [CHR 0x5C, CHR ''u'', CHR ''0'', CHR ''0'',
              hex_char (of_char c div 16), hex_char (of_char c mod 16)]
      else [c])"

definition QuoteJSONString :: "string \<Rightarrow> string" where
  "QuoteJSONString s = CHR 0x22 # concat (map quote_char s) @ [CHR 0x22]"

fun join :: "string \<Rightarrow> string list \<Rightarrow> string" where
  "join sep [] = []"
| "join sep [x] = x"
| "join sep (x # y # ys) = x @ sep @ join sep (y # ys)"

fun JSON_stringify :: "jsval \<Rightarrow> string" where
  "JSON_stringify JNull = ''null''"
| "JSON_stringify (JBool b) = (if b then ''true'' else ''false'')"
| "JSON_stringify (JNum n) = show_int n"
| "JSON_stringify (JStr s) = QuoteJSONString s"
| "JSON_stringify (JArr vs) = ''['' @ join '','' (map JSON_stringify vs) @ '']''"
| "JSON_stringify (JObj kvs) =
     ''{'' @ join '','' (map (\<lambda>(k, v). QuoteJSONString k @ '':'' @ JSON_stringify v) kvs) @ ''}''"
| "JSON_stringify (JDate d) = QuoteJSONString d"
| "JSON_stringify (JNonFinite x) = ''null''"

subsection \<open>\<^verbatim>\<open>JSON.parse\<close>\<close>

text \<open>
  The parser of the runtime on the texts of the modelled kind: a recursive descent over
  the text, white space allowed between tokens, a \<^verbatim>\<open>SyntaxError\<close> for every text
  that is not JSON. Where the model has no value for what a JSON text denotes (a number
  with a fraction or an exponent, a \<^verbatim>\<open>u\<close> escape above \<^verbatim>\<open>00ff\<close>) the text is
  refused as well, and an integer beyond the safe integers is not rounded: the parser
  agrees with the runtime on the texts that \<open>JSON_stringify\<close> writes for \<open>json_data\<close>,
  and on every text the runtime refuses.
\<close>

datatype error =
    SyntaxError
  | WRONGTYPE
  | TypeError

definition is_ws :: "char \<Rightarrow> bool" where
  "is_ws c \<longleftrightarrow> c = CHR 0x20 \<or> c = CHR 0x09 \<or> c = CHR 0x0A \<or> c = CHR 0x0D"

definition skip_ws :: "string \<Rightarrow> string" where
  "skip_ws s = dropWhile is_ws s"

definition is_digit :: "char \<Rightarrow> bool" where
  "is_digit c \<longleftrightarrow> (48::nat) \<le> of_char c \<and> (of_char c :: nat) \<le> 57"

definition digit_val :: "char \<Rightarrow> nat" where
  "digit_val c = of_char c - 48"

definition nat_of_digits :: "string \<Rightarrow> nat" where
  "nat_of_digits ds = foldl (\<lambda>a c. 10 * a + digit_val c) 0 ds"

definition hex_val :: "char \<Rightarrow> nat option" where
  "hex_val c =
     (let n = (of_char c :: nat) in
      if 48 \<le> n \<and> n \<le> 57 then Some (n - 48)
      else if 97 \<le> n \<and> n \<le> 102 then Some (n - 87)
      else if 65 \<le> n \<and> n \<le> 70 then Some (n - 55)
      else None)"

definition hex4 :: "char \<Rightarrow> char \<Rightarrow> char \<Rightarrow> char \<Rightarrow> nat option" where
  "hex4 a b c d =
     (case (hex_val a, hex_val b, hex_val c, hex_val d) of
        (Some x, Some y, Some z, Some w) \<Rightarrow> Some (((x * 16 + y) * 16 + z) * 16 + w)
      | _ \<Rightarrow> None)"

definition unescape :: "char \<Rightarrow> char option" where
  "unescape e =
     (if e = CHR 0x22 then Some (CHR 0x22)
      else if e = CHR 0x5C then Some (CHR 0x5C)
      else if e = CHR ''/'' then Some (CHR ''/'')
      else if e = CHR ''b'' then Some (CHR 0x08)
      else if e = CHR ''f'' then Some (CHR 0x0C)
      else if e = CHR ''n'' then Some (CHR 0x0A)
      else if e = CHR ''r'' then Some (CHR 0x0D)
      else if e = CHR ''t'' then Some (CHR 0x09)
      else None)"

text \<open>The characters of a string after its opening quote, up to the closing one.\<close>

fun parse_chars :: "string \<Rightarrow> (string \<times> string) option" where
  "parse_chars [] = None"
| "parse_chars (c # cs) =
     (if c = CHR 0x22 then Some ([], cs)
      else if c = CHR 0x5C then
        (case cs of
           [] \<Rightarrow> None
         | e # cs1 \<Rightarrow>
             if e = CHR ''u'' then
               (case cs1 of
                  h1 # h2 # h3 # h4 # cs2 \<Rightarrow>
                    (case hex4 h1 h2 h3 h4 of
                       None \<Rightarrow> None
                     | Some n \<Rightarrow>
                         if n < 256 then
                           (case parse_chars cs2 of
                              None \<Rightarrow> None
                            | Some (s, r) \<Rightarrow> Some (char_of n # s, r))
                         else None)
                | _ \<Rightarrow> None)
             else
               (case unescape e of
                  None \<Rightarrow> None
                | Some d \<Rightarrow>
                    (case parse_chars cs1 of
                       None \<Rightarrow> None
                     | Some (s, r) \<Rightarrow> Some (d # s, r))))
      else if (of_char c :: nat) < 32 then None
      else
        (case parse_chars cs of
           None \<Rightarrow> None
         | Some (s, r) \<Rightarrow> Some (c # s, r)))"

text \<open>A number: an optional sign, then \<^verbatim>\<open>0\<close> or digits without a leading zero.\<close>

definition parse_number :: "string \<Rightarrow> (int \<times> string) option" where
  "parse_number s =
     (let neg = (s \<noteq> [] \<and> hd s = CHR ''-'');
          s1 = (if neg then tl s else s);
          ds = takeWhile is_digit s1;
          r = dropWhile is_digit s1
      in if ds = [] then None
         else if hd ds = CHR ''0'' \<and> 1 < length ds then None
         else if r \<noteq> [] \<and> (hd r = CHR ''.'' \<or> hd r = CHR ''e'' \<or> hd r = CHR ''E'') then None
         else Some (if neg then - int (nat_of_digits ds) else int (nat_of_digits ds), r))"

definition literal :: "string \<Rightarrow> string \<Rightarrow> string option" where
  "literal w s = (if take (length w) s = w then Some (drop (length w) s) else None)"

definition parse_scalar :: "string \<Rightarrow> (jsval \<times> string) option" where
  "parse_scalar s =
     (case s of
        [] \<Rightarrow> None
      | c # cs \<Rightarrow>
          if c = CHR 0x22 then
            (case parse_chars cs of
               None \<Rightarrow> None
             | Some (t, r) \<Rightarrow> Some (JStr t, r))
          else if c = CHR ''-'' \<or> is_digit c then
            (case parse_number s of
               None \<Rightarrow> None
             | Some (n, r) \<Rightarrow> Some (JNum n, r))
          else
            (case literal ''null'' s of
               Some r \<Rightarrow> Some (JNull, r)
             | None \<Rightarrow>
                 (case literal ''true'' s of
                    Some r \<Rightarrow> Some (JBool True, r)
                  | None \<Rightarrow>
                      (case literal ''false'' s of
                         Some r \<Rightarrow> Some (JBool False, r)
                       | None \<Rightarrow> None))))"

text \<open>
  The object of a list of parsed members: a repeated property name keeps its first place
  and takes the last value.
\<close>

definition members_object :: "(string \<times> jsval) list \<Rightarrow> (string \<times> jsval) list" where
  "members_object kvs = fold (\<lambda>kv obj. AList.update (fst kv) (snd kv) obj) kvs []"

text \<open>
  Values, the elements of an array after its \<^verbatim>\<open>[\<close>, and the members of an object
  after its \<^verbatim>\<open>{\<close>. Each returns the parsed part and the rest of the text. The
  comparisons of lengths are always true (a parsed part is never empty); they make the
  recursion visibly well-founded.
\<close>

function parse_value :: "string \<Rightarrow> (jsval \<times> string) option"
  and parse_elements :: "string \<Rightarrow> (jsval list \<times> string) option"
  and parse_members :: "string \<Rightarrow> ((string \<times> jsval) list \<times> string) option"
where
  "parse_value s =
     (case s of
        [] \<Rightarrow> None
      | c # cs \<Rightarrow>
          if c = CHR ''['' then
            (case skip_ws cs of
               [] \<Rightarrow> None
             | d # ds \<Rightarrow>
                 if d = CHR '']'' then Some (JArr [], ds)
                 else (case parse_elements (d # ds) of
                         None \<Rightarrow> None
                       | Some (vs, r) \<Rightarrow> Some (JArr vs, r)))
          else if c = CHR ''{'' then
            (case skip_ws cs of
               [] \<Rightarrow> None
             | d # ds \<Rightarrow>
                 if d = CHR ''}'' then Some (JObj [], ds)
                 else (case parse_members (d # ds) of
                         None \<Rightarrow> None
                       | Some (kvs, r) \<Rightarrow> Some (JObj (members_object kvs), r)))
          else parse_scalar s)"
| "parse_elements s =
     (case parse_value s of
        None \<Rightarrow> None
      | Some (v, r) \<Rightarrow>
          if length r < length s then
            (case skip_ws r of
               [] \<Rightarrow> None
             | d # ds \<Rightarrow>
                 if d = CHR '']'' then Some ([v], ds)
                 else if d = CHR '','' then
                   (case parse_elements (skip_ws ds) of
                      None \<Rightarrow> None
                    | Some (vs, r') \<Rightarrow> Some (v # vs, r'))
                 else None)
          else None)"
| "parse_members s =
     (case s of
        [] \<Rightarrow> None
      | q # cs \<Rightarrow>
          if q = CHR 0x22 then
            (case parse_chars cs of
               None \<Rightarrow> None
             | Some (k, r0) \<Rightarrow>
                 (case skip_ws r0 of
                    [] \<Rightarrow> None
                  | col # r1 \<Rightarrow>
                      if col = CHR '':'' \<and> length r1 < length cs then
                        (case parse_value (skip_ws r1) of
                           None \<Rightarrow> None
                         | Some (v, r2) \<Rightarrow>
                             if length r2 < length cs then
                               (case skip_ws r2 of
                                  [] \<Rightarrow> None
                                | d # ds \<Rightarrow>
                                    if d = CHR ''}'' then Some ([(k, v)], ds)
                                    else if d = CHR '','' then
                                      (case parse_members (skip_ws ds) of
                                         None \<Rightarrow> None
                                       | Some (kvs, r') \<Rightarrow> Some ((k, v) # kvs, r'))
                                    else None)
                             else None)
                      else None))
          else None)"
  by pat_completeness auto

lemma length_skip_ws: "length (skip_ws s) \<le> length s"
  by (simp add: skip_ws_def length_dropWhile_le)

lemma skip_ws_Cons_length: "skip_ws s = d # ds \<Longrightarrow> length ds < length s"
  using length_skip_ws [of s] by simp

termination parse_value
  apply (relation "measure (\<lambda>x. case x of
            Inl s \<Rightarrow> 2 * length s
          | Inr (Inl s) \<Rightarrow> 2 * length s + 1
          | Inr (Inr s) \<Rightarrow> 2 * length s + 1)")
  subgoal by simp
  subgoal for s c cs d ds
    using skip_ws_Cons_length [of cs d ds] by simp
  subgoal for s c cs d ds
    using skip_ws_Cons_length [of cs d ds] by simp
  subgoal by simp
  subgoal for s p v r d ds
    using length_skip_ws [of ds] skip_ws_Cons_length [of r d ds] by simp
  subgoal for s q cs p k r0 col r1
    using length_skip_ws [of r1] by simp
  subgoal for s q cs p k r0 col r1 p' v r2 d ds
    using length_skip_ws [of ds] skip_ws_Cons_length [of r2 d ds] by simp
  done

declare parse_value.simps [simp del] parse_elements.simps [simp del] parse_members.simps [simp del]

definition JSON_parse :: "string \<Rightarrow> error + jsval" where
  "JSON_parse text =
     (case parse_value (skip_ws text) of
        None \<Rightarrow> Inl SyntaxError
      | Some (v, r) \<Rightarrow> if skip_ws r = [] then Inr v else Inl SyntaxError)"



section \<open>The store client\<close>

text \<open>
  Modelled from the spec: the client object of the external store library
  (\<^verbatim>\<open>this._client\<close>, a connection to a server or the in-memory substitute) is not
  code of the repository. Following the spec's backing-store collaborator it is a
  keyspace of string, hash, set and list values with an optional expiry per key
  (``time-to-live in seconds before stored data is considered expired''), a clock, and
  commands that fail only for a key of the wrong type. What the store holds is text: the
  client sends every argument as its text, and replies with strings. The record also
  keeps the sequence of calls the facade made on the client, in order, with the arguments
  as the facade passed them.
\<close>

datatype command =
    SET string jsval "int option"
  | GET string
  | DEL string
  | EXPIRE string int
  | HSET string "(string \<times> jsval) list"
  | SADD string "jsval list"
  | RPUSH string jsval
  | LRANGE string int int

datatype rvalue =
    RString string
  | RHash "(string \<times> string) list"
  | RSet "string list"
  | RList "string list"

record entry =
  val :: rvalue
  expires :: "int option"

record Redis =
  db :: "string \<rightharpoonup> entry"
  now :: int
  calls :: "command list"

text \<open>
  Modelled from the spec: the text of an argument, as the client sends it. A string is
  sent as it is, a number in decimal digits (those of the runtime for the safe integers), a
  boolean as \<^verbatim>\<open>true\<close> or \<^verbatim>\<open>false\<close>, \<^verbatim>\<open>null\<close> as the empty text. \<^verbatim>\<open>set\<close> and
  \<^verbatim>\<open>rpush\<close> never pass an object (they serialize it first); an object can only be a
  field value of \<^verbatim>\<open>hset\<close> or a member of \<^verbatim>\<open>sadd\<close>, whose stored contents no method
  modelled here reads: its text is that of \<^verbatim>\<open>String(v)\<close>, with the ISO text standing
  in for the local-time text of a date.
\<close>

fun toArg :: "jsval \<Rightarrow> string" where
  "toArg (JStr s) = s"
| "toArg (JNum n) = show_int n"
| "toArg (JBool b) = (if b then ''true'' else ''false'')"
| "toArg JNull = []"
| "toArg (JNonFinite x) =
     (case x of NaN \<Rightarrow> ''NaN'' | PosInfinity \<Rightarrow> ''Infinity'' | NegInfinity \<Rightarrow> ''-Infinity'')"
| "toArg (JArr vs) = join '','' (map toArg vs)"
| "toArg (JObj kvs) = ''[object Object]''"
| "toArg (JDate d) = d"

text \<open>Modelled from the spec: the in-memory substitute starts empty.\<close>

definition MockRedis :: Redis where
  "MockRedis = \<lparr>db = Map.empty, now = 0, calls = []\<rparr>"

text \<open>Modelled from the spec: a key is visible until its expiry time is reached.\<close>

definition live :: "Redis \<Rightarrow> string \<Rightarrow> entry option" where
  "live r k =
     (case db r k of
        None \<Rightarrow> None
      | Some e \<Rightarrow>
          (case expires e of
             None \<Rightarrow> Some e
           | Some t \<Rightarrow> if now r < t then Some e else None))"


text \<open>Modelled from the spec: every call on the client is one remote call; it is recorded.\<close>

definition issue :: "command \<Rightarrow> Redis \<Rightarrow> Redis" where
  "issue cmd r = r\<lparr>calls := calls r @ [cmd]\<rparr>"

text \<open>
  Modelled from the spec: scalar write, plain (\<^verbatim>\<open>set(key, value)\<close>) or with expiry
  on write (\<^verbatim>\<open>set(key, value, 'EX', seconds)\<close>); it replaces a value of any type.
\<close>

definition Redis_set :: "string \<Rightarrow> jsval \<Rightarrow> int option \<Rightarrow> Redis \<Rightarrow> (error + unit) \<times> Redis" where
  "Redis_set key v ex r =
     (Inr (),
      (issue (SET key v ex) r)
        \<lparr>db := (db r)(key \<mapsto>
            \<lparr>val = RString (toArg v), expires = map_option (\<lambda>t. now r + t) ex\<rparr>)\<rparr>)"

text \<open>
  Modelled from the spec: scalar read; the reply is the stored text as a string, and
  \<^verbatim>\<open>null\<close> when the key is absent.
\<close>

definition Redis_get :: "string \<Rightarrow> Redis \<Rightarrow> (error + jsval) \<times> Redis" where
  "Redis_get key r =
     (case live r key of
        None \<Rightarrow> (Inr JNull, issue (GET key) r)
      | Some e \<Rightarrow>
          (case val e of
             RString s \<Rightarrow> (Inr (JStr s), issue (GET key) r)
           | _ \<Rightarrow> (Inl WRONGTYPE, issue (GET key) r)))"

text \<open>Modelled from the spec: unconditional delete, no error if the key is absent.\<close>

definition Redis_del :: "string \<Rightarrow> Redis \<Rightarrow> (error + unit) \<times> Redis" where
  "Redis_del key r = (Inr (), (issue (DEL key) r)\<lparr>db := (db r)(key := None)\<rparr>)"

text \<open>Modelled from the spec: sets or overwrites the expiry of an existing key.\<close>

definition Redis_expire :: "string \<Rightarrow> int \<Rightarrow> Redis \<Rightarrow> (error + unit) \<times> Redis" where
  "Redis_expire key seconds r =
     (case live r key of
        None \<Rightarrow> (Inr (), issue (EXPIRE key seconds) r)
      | Some e \<Rightarrow>
          (Inr (),
           (issue (EXPIRE key seconds) r)
             \<lparr>db := (db r)(key \<mapsto> e\<lparr>expires := Some (now r + seconds)\<rparr>)\<rparr>))"

text \<open>
  Modelled from the spec: writes all the fields of a hash in one call; a field that exists
  already gets the new value.
\<close>

definition put_field :: "string \<times> jsval \<Rightarrow> (string \<times> string) list \<Rightarrow> (string \<times> string) list" where
  "put_field fv h = AList.update (fst fv) (toArg (snd fv)) h"

definition Redis_hset :: "string \<Rightarrow> (string \<times> jsval) list \<Rightarrow> Redis \<Rightarrow> (error + unit) \<times> Redis" where
  "Redis_hset key data r =
     (case live r key of
        None \<Rightarrow>
          (Inr (),
           (issue (HSET key data) r)
             \<lparr>db := (db r)(key \<mapsto> \<lparr>val = RHash (fold put_field data []), expires = None\<rparr>)\<rparr>)
      | Some e \<Rightarrow>
          (case val e of
             RHash h \<Rightarrow>
               (Inr (),
                (issue (HSET key data) r)
                  \<lparr>db := (db r)(key \<mapsto> e\<lparr>val := RHash (fold put_field data h)\<rparr>)\<rparr>)
           | _ \<Rightarrow> (Inl WRONGTYPE, issue (HSET key data) r)))"

text \<open>Modelled from the spec: adds all the members to a set in one call.\<close>

definition Redis_sadd :: "string \<Rightarrow> jsval list \<Rightarrow> Redis \<Rightarrow> (error + unit) \<times> Redis" where
  "Redis_sadd key arr r =
     (case live r key of
        None \<Rightarrow>
          (Inr (),
           (issue (SADD key arr) r)
             \<lparr>db := (db r)(key \<mapsto>
                 \<lparr>val = RSet (fold List.insert (map toArg arr) []), expires = None\<rparr>)\<rparr>)
      | Some e \<Rightarrow>
          (case val e of
             RSet m \<Rightarrow>
               (Inr (),
                (issue (SADD key arr) r)
                  \<lparr>db := (db r)(key \<mapsto> e\<lparr>val := RSet (fold List.insert (map toArg arr) m)\<rparr>)\<rparr>)
           | _ \<Rightarrow> (Inl WRONGTYPE, issue (SADD key arr) r)))"

text \<open>Modelled from the spec: appends an element at the tail of a list.\<close>

definition Redis_rpush :: "string \<Rightarrow> jsval \<Rightarrow> Redis \<Rightarrow> (error + unit) \<times> Redis" where
  "Redis_rpush key v r =
     (case live r key of
        None \<Rightarrow>
          (Inr (),
           (issue (RPUSH key v) r)
             \<lparr>db := (db r)(key \<mapsto> \<lparr>val = RList [toArg v], expires = None\<rparr>)\<rparr>)
      | Some e \<Rightarrow>
          (case val e of
             RList xs \<Rightarrow>
               (Inr (),
                (issue (RPUSH key v) r)
                  \<lparr>db := (db r)(key \<mapsto> e\<lparr>val := RList (xs @ [toArg v])\<rparr>)\<rparr>)
           | _ \<Rightarrow> (Inl WRONGTYPE, issue (RPUSH key v) r)))"

text \<open>
  Modelled from the spec: the range of a list in the store's index semantics
  (``negative indices count from the list tail; end=-1 means through the last element''),
  replied as an array of strings.
\<close>

definition range_of :: "'a list \<Rightarrow> int \<Rightarrow> int \<Rightarrow> 'a list" where
  "range_of xs start stop =
     (let n = int (length xs);
          s = (if start < 0 then max 0 (n + start) else start);
          e = min (if stop < 0 then n + stop else stop) (n - 1)
      in if e < s then [] else take (nat (e - s + 1)) (drop (nat s) xs))"

definition Redis_lrange :: "string \<Rightarrow> int \<Rightarrow> int \<Rightarrow> Redis \<Rightarrow> (error + jsval list) \<times> Redis" where
  "Redis_lrange key start stop r =
     (case live r key of
        None \<Rightarrow> (Inr [], issue (LRANGE key start stop) r)
      | Some e \<Rightarrow>
          (case val e of
             RList xs \<Rightarrow>
               (Inr (map JStr (range_of xs start stop)), issue (LRANGE key start stop) r)
           | _ \<Rightarrow> (Inl WRONGTYPE, issue (LRANGE key start stop) r)))"

section \<open>RedisClient\<close>

text \<open>
  The facade class holds one field, the store client, and every method works on it: a
  \<^verbatim>\<open>RedisClient\<close> object is identified with the state of its client. A method
  returns its result, or the error that rejects its promise, together with the client
  afterwards. Logging is a side channel and is left out.
\<close>

type_synonym RedisClient = Redis

type_synonym config = "(string \<times> string) list"

text \<open>
  The constructor: a connection for a configuration (\<^verbatim>\<open>new Redis(conf)\<close>, the
  library's, a parameter here), the in-memory substitute for \<^verbatim>\<open>null\<close>.
\<close>

definition new_RedisClient :: "(config \<Rightarrow> Redis) \<Rightarrow> config option \<Rightarrow> RedisClient" where
  "new_RedisClient connect conf =
     (case conf of
        Some cf \<Rightarrow> connect cf
      | None \<Rightarrow> MockRedis)"

text \<open>The static field \<^verbatim>\<open>RedisClient.instance\<close>; it is unset when the program starts.\<close>

record process =
  RedisClient_instance :: "RedisClient option"

definition initial :: process where
  "initial = \<lparr>RedisClient_instance = None\<rparr>"

definition init :: "(config \<Rightarrow> Redis) \<Rightarrow> config option \<Rightarrow> process \<Rightarrow> process" where
  "init connect conf p =
     (if RedisClient_instance p = None
      then p\<lparr>RedisClient_instance := Some (new_RedisClient connect conf)\<rparr>
      else p)"

definition getInstance :: "process \<Rightarrow> RedisClient option" where
  "getInstance p = RedisClient_instance p"

text \<open>
  \<^verbatim>\<open>set(key, value, seconds = 0)\<close>. The optional \<^verbatim>\<open>seconds\<close> is \<open>None\<close> for
  \<^verbatim>\<open>undefined\<close> (which the default turns into 0) and for \<^verbatim>\<open>null\<close>.
\<close>

definition set' :: "string \<Rightarrow> jsval \<Rightarrow> int option \<Rightarrow> RedisClient \<Rightarrow> (error + unit) \<times> RedisClient" where
  "set' key value seconds this =
     (let value = (if typeof value = ''object'' then JStr (JSON_stringify value) else value)
      in if seconds = None \<or> seconds = Some 0 then Redis_set key value None this
         else Redis_set key value seconds this)"

definition get :: "string \<Rightarrow> RedisClient \<Rightarrow> (error + jsval) \<times> RedisClient" where
  "get key this = Redis_get key this"

text \<open>
  \<^verbatim>\<open>getObject\<close>: the \<^verbatim>\<open>try\<close> around \<^verbatim>\<open>JSON.parse\<close> catches the error and leaves
  \<^verbatim>\<open>result\<close> at \<^verbatim>\<open>null\<close>. The test \<^verbatim>\<open>text != null && typeof text == "string"\<close>
  holds exactly for a string.
\<close>

definition getObject :: "string \<Rightarrow> RedisClient \<Rightarrow> (error + jsval) \<times> RedisClient" where
  "getObject key this =
     (case get key this of
        (Inl e, this') \<Rightarrow> (Inl e, this')
      | (Inr text, this') \<Rightarrow>
          (case text of
             JStr s \<Rightarrow>
               (case JSON_parse s of
                  Inr result \<Rightarrow> (Inr result, this')
                | Inl ex \<Rightarrow> (Inr JNull, this'))
           | _ \<Rightarrow> (Inr JNull, this')))"

definition del :: "string \<Rightarrow> RedisClient \<Rightarrow> (error + unit) \<times> RedisClient" where
  "del key this = Redis_del key this"

definition expiry :: "string \<Rightarrow> int \<Rightarrow> RedisClient \<Rightarrow> (error + unit) \<times> RedisClient" where
  "expiry key seconds this = Redis_expire key seconds this"

text \<open>\<^verbatim>\<open>seconds > 0\<close> is false for \<^verbatim>\<open>null\<close> and \<^verbatim>\<open>undefined\<close>.\<close>

definition positive :: "int option \<Rightarrow> bool" where
  "positive seconds = (case seconds of None \<Rightarrow> False | Some t \<Rightarrow> 0 < t)"

definition hset :: "string \<Rightarrow> (string \<times> jsval) list \<Rightarrow> int option \<Rightarrow> RedisClient \<Rightarrow> (error + unit) \<times> RedisClient" where
  "hset key data seconds this =
     (case Redis_hset key data this of
        (Inl e, this') \<Rightarrow> (Inl e, this')
      | (Inr u, this') \<Rightarrow>
          if seconds \<noteq> None \<and> positive seconds then expiry key (the seconds) this'
          else (Inr (), this'))"

definition sadd :: "string \<Rightarrow> jsval list \<Rightarrow> int option \<Rightarrow> RedisClient \<Rightarrow> (error + unit) \<times> RedisClient" where
  "sadd key arr seconds this =
     (case Redis_sadd key arr this of
        (Inl e, this') \<Rightarrow> (Inl e, this')
      | (Inr u, this') \<Rightarrow>
          if positive seconds then expiry key (the seconds) this'
          else (Inr (), this'))"

definition rpush :: "string \<Rightarrow> jsval \<Rightarrow> int option \<Rightarrow> RedisClient \<Rightarrow> (error + unit) \<times> RedisClient" where
  "rpush key data seconds this =
     (let data = (if typeof data = ''object'' then JStr (JSON_stringify data) else data)
      in case Redis_rpush key data this of
           (Inl e, this') \<Rightarrow> (Inl e, this')
         | (Inr u, this') \<Rightarrow>
             if positive seconds then expiry key (the seconds) this'
             else (Inr (), this'))"

definition lrange :: "string \<Rightarrow> int \<Rightarrow> int \<Rightarrow> RedisClient \<Rightarrow> (error + jsval list) \<times> RedisClient" where
  "lrange key start end this = Redis_lrange key start end this"

text \<open>
  The loop of \<^verbatim>\<open>lrangeObject\<close> over the fetched array, with the array built so far:
  a string item (\<^verbatim>\<open>typeof item == "string"\<close>) is parsed and the result pushed; when the
  parse throws, the \<^verbatim>\<open>catch\<close> only logs, and nothing is pushed; an item that is not a
  string is pushed as it is.
\<close>

fun lrangeObject_loop :: "jsval list \<Rightarrow> jsval list \<Rightarrow> jsval list" where
  "lrangeObject_loop [] list = list"
| "lrangeObject_loop (item # arr) list =
     (case item of
        JStr s \<Rightarrow>
          (case JSON_parse s of
             Inr v \<Rightarrow> lrangeObject_loop arr (list @ [v])
           | Inl ex \<Rightarrow> lrangeObject_loop arr list)
      | _ \<Rightarrow> lrangeObject_loop arr (list @ [item]))"

definition lrangeObject :: "string \<Rightarrow> int \<Rightarrow> int \<Rightarrow> RedisClient \<Rightarrow> (error + jsval list) \<times> RedisClient" where
  "lrangeObject key start end this =
     (case Redis_lrange key start end this of
        (Inl e, this') \<Rightarrow> (Inl e, this')
      | (Inr arr, this') \<Rightarrow> (Inr (lrangeObject_loop arr []), this'))"

section \<open>AbstractCachedData\<close>









section \<open>CachedDataManager\<close>

text \<open>
  The registry: a \<^verbatim>\<open>Map\<close> from class constructors to instances. Keys and instances
  are compared by identity; the types \<open>'c\<close> and \<open>'i\<close> stand for these identities.
\<close>

record ('c, 'i) CachedDataManager =
  map' :: "'c \<rightharpoonup> 'i"

definition new_CachedDataManager :: "('c, 'i) CachedDataManager" where
  "new_CachedDataManager = \<lparr>map' = Map.empty\<rparr>"

definition register :: "'c \<Rightarrow> 'i \<Rightarrow> ('c, 'i) CachedDataManager \<Rightarrow> ('c, 'i) CachedDataManager" where
  "register ctor inst this = this\<lparr>map' := (map' this)(ctor \<mapsto> inst)\<rparr>"

definition CachedDataManager_get :: "'c \<Rightarrow> ('c, 'i) CachedDataManager \<Rightarrow> 'i option" where
  "CachedDataManager_get ctor this = map' this ctor"

section \<open>The parser consumes what it parses\<close>

text \<open>
  Every successful parse leaves a rest that is shorter than the text, so the comparisons of
  lengths in \<open>parse_elements\<close> and \<open>parse_members\<close> never fail: the two functions
  satisfy their equations without them.
\<close>

lemma parse_chars_consumes: "parse_chars s = Some (t, r) \<Longrightarrow> length r < length s"
proof (induction s arbitrary: t r rule: parse_chars.induct)
  case 1
  then show ?case by simp
next
  case (2 c cs)
  show ?case
    using "2.prems" "2.IH"
    by (auto split: if_splits list.splits option.splits prod.splits) fastforce+
qed

lemma parse_number_consumes: "parse_number s = Some (n, r) \<Longrightarrow> length r < length s"
proof -
  assume p: "parse_number s = Some (n, r)"
  let ?s1 = "if s \<noteq> [] \<and> hd s = CHR ''-'' then tl s else s"
  have r: "r = dropWhile is_digit ?s1" and ds: "takeWhile is_digit ?s1 \<noteq> []"
    using p by (auto simp add: parse_number_def Let_def split: if_splits)
  have "length (takeWhile is_digit ?s1) + length (dropWhile is_digit ?s1) = length ?s1"
    by (metis length_append takeWhile_dropWhile_id)
  then have "length r < length ?s1"
    using r ds by (cases "takeWhile is_digit ?s1") auto
  moreover have "length ?s1 \<le> length s"
    by simp
  ultimately show ?thesis
    by simp
qed

lemma literal_consumes: "literal w s = Some r \<Longrightarrow> w \<noteq> [] \<Longrightarrow> length r < length s"
  by (cases s) (auto simp add: literal_def split: if_splits)

lemma parse_scalar_consumes: "parse_scalar s = Some (v, r) \<Longrightarrow> length r < length s"
  using parse_chars_consumes parse_number_consumes
    literal_consumes [of "''null''" s r] literal_consumes [of "''true''" s r]
    literal_consumes [of "''false''" s r]
  by (cases s) (auto simp add: parse_scalar_def split: if_splits option.splits prod.splits, fastforce+)

lemma parse_consumes:
  "parse_value s = Some (v, r) \<Longrightarrow> length r < length s"
  "parse_elements s1 = Some (vs, r1) \<Longrightarrow> length r1 < length s1"
  "parse_members s2 = Some (kvs, r2) \<Longrightarrow> length r2 < length s2"
proof (induction s and s1 and s2 arbitrary: v r and vs r1 and kvs r2
    rule: parse_value_parse_elements_parse_members.induct)
  case (1 s)
  show ?case
  proof (cases s)
    case Nil
    then show ?thesis
      using "1.prems" by (subst (asm) parse_value.simps) simp
  next
    case (Cons c cs)
    consider (arr) "c = CHR ''[''" | (obj) "c \<noteq> CHR ''[''" "c = CHR ''{''"
      | (scalar) "c \<noteq> CHR ''[''" "c \<noteq> CHR ''{''"
      by blast
    then show ?thesis
    proof cases
      case arr
      obtain d ds where d: "skip_ws cs = d # ds"
        using "1.prems" Cons arr
        by (subst (asm) parse_value.simps) (auto split: list.splits)
      have le: "length ds < length cs"
        using d by (rule skip_ws_Cons_length)
      show ?thesis
      proof (cases "d = CHR '']''")
        case True
        then have "r = ds"
          using "1.prems" Cons arr d by (subst (asm) parse_value.simps) simp
        then show ?thesis
          using le Cons by simp
      next
        case False
        then obtain vs where "parse_elements (d # ds) = Some (vs, r)"
          using "1.prems" Cons arr d
          by (subst (asm) parse_value.simps) (auto split: option.splits)
        then have "length r < length (d # ds)"
          using "1.IH"(1) [OF Cons arr d False] by simp
        then show ?thesis
          using le Cons by simp
      qed
    next
      case obj
      obtain d ds where d: "skip_ws cs = d # ds"
        using "1.prems" Cons obj
        by (subst (asm) parse_value.simps) (auto split: list.splits)
      have le: "length ds < length cs"
        using d by (rule skip_ws_Cons_length)
      show ?thesis
      proof (cases "d = CHR ''}''")
        case True
        then have "r = ds"
          using "1.prems" Cons obj d by (subst (asm) parse_value.simps) simp
        then show ?thesis
          using le Cons by simp
      next
        case False
        then obtain kvs where "parse_members (d # ds) = Some (kvs, r)"
          using "1.prems" Cons obj d
          by (subst (asm) parse_value.simps) (auto split: option.splits)
        then have "length r < length (d # ds)"
          using "1.IH"(2) [OF Cons obj d False] by simp
        then show ?thesis
          using le Cons by simp
      qed
    next
      case scalar
      then have "parse_scalar s = Some (v, r)"
        using "1.prems" Cons by (subst (asm) parse_value.simps) simp
      then show ?thesis
        by (rule parse_scalar_consumes)
    qed
  qed
next
  case (2 s)
  obtain v r where pv: "parse_value s = Some (v, r)" and guard: "length r < length s"
    and tail: "(case skip_ws r of
               [] \<Rightarrow> None
             | d # ds \<Rightarrow>
                 if d = CHR '']'' then Some ([v], ds)
                 else if d = CHR '','' then
                   (case parse_elements (skip_ws ds) of
                      None \<Rightarrow> None
                    | Some (vs, r') \<Rightarrow> Some (v # vs, r'))
                 else None) = Some (vs, r1)"
    using "2.prems"
    by (subst (asm) parse_elements.simps) (auto split: option.splits if_splits)
  obtain d ds where d: "skip_ws r = d # ds"
    using tail by (auto split: list.splits)
  have le: "length ds < length r"
    using d by (rule skip_ws_Cons_length)
  show ?case
  proof (cases "d = CHR '']''")
    case True
    then have "r1 = ds"
      using tail d by simp
    then show ?thesis
      using le guard by simp
  next
    case False
    then have comma: "d = CHR '',''"
      using tail d by (auto split: if_splits)
    obtain vs' where rest: "parse_elements (skip_ws ds) = Some (vs', r1)"
      using tail d False comma by (auto split: option.splits)
    have "length r1 < length (skip_ws ds)"
      using "2.IH"(2) [OF pv _ guard d False comma rest] by simp
    then show ?thesis
      using le guard length_skip_ws [of ds] by simp
  qed
next
  case (3 s)
  obtain cs k r0 rr v r where s: "s = CHR 0x22 # cs" and key: "parse_chars cs = Some (k, r0)"
    and colon: "skip_ws r0 = CHR '':'' # rr" and guard1: "length rr < length cs"
    and pv: "parse_value (skip_ws rr) = Some (v, r)" and guard2: "length r < length cs"
    and tail: "(case skip_ws r of
                  [] \<Rightarrow> None
                | d # ds \<Rightarrow>
                    if d = CHR ''}'' then Some ([(k, v)], ds)
                    else if d = CHR '','' then
                      (case parse_members (skip_ws ds) of
                         None \<Rightarrow> None
                       | Some (kvs, r') \<Rightarrow> Some ((k, v) # kvs, r'))
                    else None) = Some (kvs, r2)"
    using "3.prems"
    by (subst (asm) parse_members.simps)
      (auto split: list.splits option.splits if_splits prod.splits)
  obtain d ds where d: "skip_ws r = d # ds"
    using tail by (auto split: list.splits)
  have le: "length ds < length r"
    using d by (rule skip_ws_Cons_length)
  show ?case
  proof (cases "d = CHR ''}''")
    case True
    then have "r2 = ds"
      using tail d by simp
    then show ?thesis
      using le guard2 s by simp
  next
    case False
    then have comma: "d = CHR '',''"
      using tail d by (auto split: if_splits)
    obtain kvs' where rest: "parse_members (skip_ws ds) = Some (kvs', r2)"
      using tail d False comma by (auto split: option.splits)
    have "length r2 < length (skip_ws ds)"
      using "3.IH"(2) [OF s _ key _ colon _ pv _ _ d False comma rest] guard1 guard2 by simp
    then show ?thesis
      using le guard2 s length_skip_ws [of ds] by simp
  qed
qed

lemma parse_elements_unguarded:
  "parse_elements s =
     (case parse_value s of
        None \<Rightarrow> None
      | Some (v, r) \<Rightarrow>
          (case skip_ws r of
             [] \<Rightarrow> None
           | d # ds \<Rightarrow>
               if d = CHR '']'' then Some ([v], ds)
               else if d = CHR '','' then
                 (case parse_elements (skip_ws ds) of
                    None \<Rightarrow> None
                  | Some (vs, r') \<Rightarrow> Some (v # vs, r'))
               else None))"
  by (subst (1) parse_elements.simps) (auto split: option.splits dest: parse_consumes(1))

lemma parse_members_unguarded:
  "parse_members s =
     (case s of
        [] \<Rightarrow> None
      | q # cs \<Rightarrow>
          if q = CHR 0x22 then
            (case parse_chars cs of
               None \<Rightarrow> None
             | Some (k, r0) \<Rightarrow>
                 (case skip_ws r0 of
                    [] \<Rightarrow> None
                  | col # r1 \<Rightarrow>
                      if col = CHR '':'' then
                        (case parse_value (skip_ws r1) of
                           None \<Rightarrow> None
                         | Some (v, r2) \<Rightarrow>
                             (case skip_ws r2 of
                                [] \<Rightarrow> None
                              | d # ds \<Rightarrow>
                                  if d = CHR ''}'' then Some ([(k, v)], ds)
                                  else if d = CHR '','' then
                                    (case parse_members (skip_ws ds) of
                                       None \<Rightarrow> None
                                     | Some (kvs, r') \<Rightarrow> Some ((k, v) # kvs, r'))
                                  else None))
                      else None))
          else None)"
proof (cases s)
  case Nil
  then show ?thesis
    by (subst (1) parse_members.simps) simp
next
  case (Cons q cs)
  have g1: "length r1 < length cs"
    if "parse_chars cs = Some (k, r0)" and "skip_ws r0 = col # r1" for k r0 col r1
    using parse_chars_consumes [OF that(1)] skip_ws_Cons_length [OF that(2)] by simp
  have g2: "length r2 < length cs"
    if "parse_chars cs = Some (k, r0)" and "skip_ws r0 = col # r1"
      and "parse_value (skip_ws r1) = Some (v, r2)" for k r0 col r1 v r2
    using g1 [OF that(1,2)] parse_consumes(1) [OF that(3)] length_skip_ws [of r1] by simp
  show ?thesis
    unfolding Cons
    by (subst (1) parse_members.simps)
      (auto split: option.splits list.splits simp add: g1 g2)
qed

section \<open>The JSON codec reads back what it writes\<close>

text \<open>
  \<^verbatim>\<open>JSON.parse(JSON.stringify(v))\<close> is \<open>v\<close> for every value that is JSON data. The proof
  follows the parser: digits, numbers, string characters, then values by induction, with
  the elements of an array and the members of an object by induction on the list.
\<close>

subsection \<open>Digits\<close>















subsection \<open>Strings\<close>





subsection \<open>Values\<close>




















section \<open>Properties\<close>

text \<open>The loop of \<^verbatim>\<open>lrangeObject\<close> appends, for each item in order, what it pushes.\<close>

lemma lrangeObject_loop_concat:
  "lrangeObject_loop arr list =
     list @ concat (map (\<lambda>item. case item of
                                  JStr s \<Rightarrow> (case JSON_parse s of Inr v \<Rightarrow> [v] | Inl ex \<Rightarrow> [])
                                | _ \<Rightarrow> [item]) arr)"
proof (induction arr arbitrary: list)
  case Nil
  show ?case by simp
next
  case (Cons item arr)
  show ?case
    by (cases item) (simp_all add: Cons.IH split: sum.split)
qed

subsection \<open>Reading a list as objects\<close>

text \<open>
  C1, as stated, fails: on the list made by \<^verbatim>\<open>rpush(k, "a"); rpush(k, {n: 1})\<close>,
  \<^verbatim>\<open>lrange(k, 0, -1)\<close> fetches two elements, the text \<^verbatim>\<open>a\<close> and the JSON text of
  the object, and \<^verbatim>\<open>lrangeObject(k, 0, -1)\<close> returns one entry, the parsed object:
  the element that does not parse is dropped, not passed through as raw text.
\<close>

theorem lrangeObject_drops_unparsable:
  "fst (lrange ''k'' 0 (- 1)
          (snd (rpush ''k'' (JObj [(''n'', JNum 1)]) None
             (snd (rpush ''k'' (JStr ''a'') None MockRedis)))))
     = Inr [JStr ''a'', JStr (JSON_stringify (JObj [(''n'', JNum 1)]))]
   \<and> fst (lrangeObject ''k'' 0 (- 1)
          (snd (rpush ''k'' (JObj [(''n'', JNum 1)]) None
             (snd (rpush ''k'' (JStr ''a'') None MockRedis)))))
     = Inr [JObj [(''n'', JNum 1)]]
   \<and> fst (lrangeObject ''k'' 0 (- 1)
          (snd (rpush ''k'' (JObj [(''n'', JNum 1)]) None
             (snd (rpush ''k'' (JStr ''a'') None MockRedis)))))
     \<noteq> Inr [JStr ''a'', JObj [(''n'', JNum 1)]]"
  by code_simp

text \<open>
  C1, amended: \<^verbatim>\<open>lrangeObject(key, start, end)\<close> fetches the same range as
  \<^verbatim>\<open>lrange\<close> and returns, in the order of the fetched elements, the parsed value of
  each string element whose JSON parse succeeds; a string element whose parse fails is
  left out of the returned sequence, and an element that is not a string is kept as it
  is. The client is left as \<^verbatim>\<open>lrange\<close> leaves it.
\<close>

theorem lrangeObject_keeps_parsed_only:
  assumes "lrange key start end this = (Inr arr, this')"
  shows "lrangeObject key start end this =
           (Inr (concat (map (\<lambda>item. case item of
                                  JStr s \<Rightarrow> (case JSON_parse s of Inr v \<Rightarrow> [v] | Inl ex \<Rightarrow> [])
                                | _ \<Rightarrow> [item]) arr)), this')"
  using assms by (simp add: lrangeObject_def lrange_def lrangeObject_loop_concat)

theorem lrangeObject_keeps_parsed_only_witness:
  "lrange ''k'' 0 (- 1)
       (snd (rpush ''k'' (JObj [(''n'', JNum 1)]) None
          (snd (rpush ''k'' (JStr ''a'') None MockRedis))))
     = (Inr [JStr ''a'', JStr (JSON_stringify (JObj [(''n'', JNum 1)]))],
        snd (lrange ''k'' 0 (- 1)
          (snd (rpush ''k'' (JObj [(''n'', JNum 1)]) None
             (snd (rpush ''k'' (JStr ''a'') None MockRedis))))))
   \<and> lrangeObject ''k'' 0 (- 1)
       (snd (rpush ''k'' (JObj [(''n'', JNum 1)]) None
          (snd (rpush ''k'' (JStr ''a'') None MockRedis))))
     = (Inr [JObj [(''n'', JNum 1)]],
        snd (lrange ''k'' 0 (- 1)
          (snd (rpush ''k'' (JObj [(''n'', JNum 1)]) None
             (snd (rpush ''k'' (JStr ''a'') None MockRedis))))))"
proof -
  let ?S = "snd (rpush ''k'' (JObj [(''n'', JNum 1)]) None
                 (snd (rpush ''k'' (JStr ''a'') None MockRedis)))"
  let ?arr = "[JStr ''a'', JStr (JSON_stringify (JObj [(''n'', JNum 1)]))]"
  have fetched: "fst (lrange ''k'' 0 (- 1) ?S) = Inr ?arr"
    by code_simp
  have h: "lrange ''k'' 0 (- 1) ?S = (Inr ?arr, snd (lrange ''k'' 0 (- 1) ?S))"
    using fetched by (metis prod.collapse)
  have parsed:
    "concat (map (\<lambda>item. case item of
                     JStr s \<Rightarrow> (case JSON_parse s of Inr v \<Rightarrow> [v] | Inl ex \<Rightarrow> [])
                   | _ \<Rightarrow> [item]) ?arr) = [JObj [(''n'', JNum 1)]]"
    by code_simp
  show ?thesis
    using h lrangeObject_keeps_parsed_only [OF h] parsed by simp
qed

subsection \<open>Reading one value as an object\<close>

text \<open>
  C2: when the key holds a text that \<^verbatim>\<open>JSON.parse\<close> rejects, \<^verbatim>\<open>getObject(key)\<close>
  returns \<^verbatim>\<open>null\<close> and no error: the raw text is not in the result, which is the
  result of \<^verbatim>\<open>getObject\<close> for an absent key.
\<close>

theorem getObject_not_json:
  assumes "live this key = Some e" and "val e = RString s" and "JSON_parse s = Inl ex"
    and "live that other = None"
  shows "fst (getObject key this) = Inr JNull
         \<and> fst (getObject other that) = fst (getObject key this)"
  using assms by (simp add: getObject_def get_def Redis_get_def)

theorem getObject_not_json_witness:
  "live (snd (set' ''k'' (JStr ''a'') None MockRedis)) ''k''
      = Some \<lparr>val = RString ''a'', expires = None\<rparr>
   \<and> JSON_parse ''a'' = Inl SyntaxError
   \<and> live MockRedis ''k'' = None
   \<and> fst (getObject ''k'' (snd (set' ''k'' (JStr ''a'') None MockRedis))) = Inr JNull
   \<and> fst (getObject ''k'' MockRedis)
       = fst (getObject ''k'' (snd (set' ''k'' (JStr ''a'') None MockRedis)))"
proof -
  let ?S = "snd (set' ''k'' (JStr ''a'') None MockRedis)"
  let ?e = "\<lparr>val = RString ''a'', expires = None\<rparr>"
  have h1: "live ?S ''k'' = Some ?e"
    by (simp add: live_def set'_def Redis_set_def issue_def MockRedis_def Let_def)
  have h2: "val ?e = RString ''a''"
    by simp
  have h3: "JSON_parse ''a'' = Inl SyntaxError"
    by code_simp
  have h4: "live MockRedis ''k'' = None"
    by (simp add: live_def MockRedis_def)
  show ?thesis
    using h1 h3 h4 getObject_not_json [OF h1 h2 h3 h4] by simp
qed

subsection \<open>Writing a value and reading it back\<close>







subsection \<open>Expiry\<close>

text \<open>
  C5: \<^verbatim>\<open>set(key, value, seconds)\<close> makes exactly one call on the store. When
  \<^verbatim>\<open>seconds\<close> is 0 or absent it is the plain write, and the key gets no expiry;
  otherwise it is the write with expiry (\<^verbatim>\<open>'EX', seconds\<close>), which stores the value
  and its expiry together. No separate expiry command is issued in either case.
\<close>

theorem set_expiry_on_write:
  "(seconds = None \<or> seconds = Some 0 \<longrightarrow>
      calls (snd (set' key v seconds this))
        = calls this @ [SET key (if typeof v = ''object'' then JStr (JSON_stringify v) else v) None]
      \<and> map_option expires (db (snd (set' key v seconds this)) key) = Some None)
   \<and> (seconds = Some t \<and> t \<noteq> 0 \<longrightarrow>
      calls (snd (set' key v seconds this))
        = calls this @ [SET key (if typeof v = ''object'' then JStr (JSON_stringify v) else v) (Some t)]
      \<and> map_option expires (db (snd (set' key v seconds this)) key) = Some (Some (now this + t)))"
  by (auto simp add: set'_def Redis_set_def issue_def Let_def)

theorem set_expiry_on_write_witness:
  "calls (snd (set' ''myKey'' (JStr ''myValue'') (Some 0) MockRedis))
     = [SET ''myKey'' (JStr ''myValue'') None]
   \<and> map_option expires (db (snd (set' ''myKey'' (JStr ''myValue'') (Some 0) MockRedis)) ''myKey'')
     = Some None
   \<and> calls (snd (set' ''myKey'' (JStr ''myValue'') (Some 60) MockRedis))
     = [SET ''myKey'' (JStr ''myValue'') (Some 60)]
   \<and> map_option expires (db (snd (set' ''myKey'' (JStr ''myValue'') (Some 60) MockRedis)) ''myKey'')
     = Some (Some 60)"
proof -
  have c: "calls MockRedis = []" and n: "now MockRedis = 0"
    by (simp_all add: MockRedis_def)
  have t: "typeof (JStr ''myValue'') \<noteq> ''object''"
    by simp
  show ?thesis
    using c n t
      set_expiry_on_write [of "Some 0" "''myKey''" "JStr ''myValue''" MockRedis 0]
      set_expiry_on_write [of "Some 60" "''myKey''" "JStr ''myValue''" MockRedis 60]
    by simp
qed

text \<open>
  C6: \<^verbatim>\<open>hset\<close>, \<^verbatim>\<open>sadd\<close> and \<^verbatim>\<open>rpush\<close> issue the data write as one call on
  the store; when the store has accepted the write, a separate expiry call on the key follows
  if and only if \<^verbatim>\<open>seconds > 0\<close>, and none when \<^verbatim>\<open>seconds\<close> is \<open>\<le> 0\<close> or
  \<^verbatim>\<open>null\<close>. (When the store rejects the write, the method stops with that error and
  the write is the only call.)
\<close>

theorem expiry_follows_write:
  "calls (snd (hset key data seconds this))
     = calls this @ [HSET key data]
       @ (if fst (Redis_hset key data this) = Inr () \<and> positive seconds
          then [EXPIRE key (the seconds)] else [])
   \<and> calls (snd (sadd key arr seconds this))
     = calls this @ [SADD key arr]
       @ (if fst (Redis_sadd key arr this) = Inr () \<and> positive seconds
          then [EXPIRE key (the seconds)] else [])
   \<and> calls (snd (rpush key v seconds this))
     = calls this @ [RPUSH key (if typeof v = ''object'' then JStr (JSON_stringify v) else v)]
       @ (if fst (Redis_rpush key (if typeof v = ''object'' then JStr (JSON_stringify v) else v) this)
               = Inr ()
             \<and> positive seconds
          then [EXPIRE key (the seconds)] else [])"
proof (intro conjI)
  show "calls (snd (hset key data seconds this))
     = calls this @ [HSET key data]
       @ (if fst (Redis_hset key data this) = Inr () \<and> positive seconds
          then [EXPIRE key (the seconds)] else [])"
    by (simp add: hset_def Redis_hset_def expiry_def Redis_expire_def issue_def positive_def
        split: option.split rvalue.split)
  show "calls (snd (sadd key arr seconds this))
     = calls this @ [SADD key arr]
       @ (if fst (Redis_sadd key arr this) = Inr () \<and> positive seconds
          then [EXPIRE key (the seconds)] else [])"
    by (simp add: sadd_def Redis_sadd_def expiry_def Redis_expire_def issue_def positive_def
        split: option.split rvalue.split)
  show "calls (snd (rpush key v seconds this))
     = calls this @ [RPUSH key (if typeof v = ''object'' then JStr (JSON_stringify v) else v)]
       @ (if fst (Redis_rpush key (if typeof v = ''object'' then JStr (JSON_stringify v) else v) this)
               = Inr ()
             \<and> positive seconds
          then [EXPIRE key (the seconds)] else [])"
    by (simp add: rpush_def Redis_rpush_def expiry_def Redis_expire_def issue_def positive_def Let_def
        split: option.split rvalue.split)
qed

theorem expiry_follows_write_witness:
  "calls (snd (hset ''myHash'' [(''field1'', JStr ''value1'')] (Some 60) MockRedis))
     = [HSET ''myHash'' [(''field1'', JStr ''value1'')], EXPIRE ''myHash'' 60]
   \<and> calls (snd (hset ''myHash'' [(''field1'', JStr ''value1'')] None MockRedis))
     = [HSET ''myHash'' [(''field1'', JStr ''value1'')]]
   \<and> calls (snd (sadd ''mySet'' [JStr ''member1''] (Some 0) MockRedis))
     = [SADD ''mySet'' [JStr ''member1'']]
   \<and> calls (snd (rpush ''myList'' (JStr ''item1'') (Some (- 1)) MockRedis))
     = [RPUSH ''myList'' (JStr ''item1'')]
   \<and> calls (snd (rpush ''myList'' (JStr ''item1'') (Some 60) MockRedis))
     = [RPUSH ''myList'' (JStr ''item1''), EXPIRE ''myList'' 60]"
proof -
  have c: "calls MockRedis = []"
    by (simp add: MockRedis_def)
  have w1: "fst (Redis_hset ''myHash'' [(''field1'', JStr ''value1'')] MockRedis) = Inr ()"
    by code_simp
  have w3: "fst (Redis_rpush ''myList'' (JStr ''item1'') MockRedis) = Inr ()"
    by code_simp
  have p: "positive (Some 60)" "\<not> positive None" "\<not> positive (Some 0)" "\<not> positive (Some (- 1))"
    by (simp_all add: positive_def)
  have w2: "fst (Redis_sadd ''mySet'' [JStr ''member1''] MockRedis) = Inr ()"
    by code_simp
  have t: "typeof (JStr ''item1'') \<noteq> ''object''"
    by simp
  show ?thesis
    using c w1 w2 w3 p t
      expiry_follows_write [of "''myHash''" "[(''field1'', JStr ''value1'')]" "Some 60" MockRedis
        "[]" JNull]
      expiry_follows_write [of "''myHash''" "[(''field1'', JStr ''value1'')]" None MockRedis
        "[]" JNull]
      expiry_follows_write [of "''mySet''" "[]" "Some 0" MockRedis "[JStr ''member1'']" JNull]
      expiry_follows_write [of "''myList''" "[]" "Some (- 1)" MockRedis "[]" "JStr ''item1''"]
      expiry_follows_write [of "''myList''" "[]" "Some 60" MockRedis "[]" "JStr ''item1''"]
    by simp
qed

subsection \<open>The singleton\<close>

text \<open>
  C7: initialization is idempotent. When an instance exists, \<^verbatim>\<open>init(conf)\<close> changes
  nothing, whatever the configuration: the instance is neither reconfigured nor
  replaced, and \<^verbatim>\<open>getInstance()\<close> returns the same instance as before the call.
\<close>

theorem init_idempotent:
  assumes "getInstance p = Some i"
  shows "init connect conf p = p \<and> getInstance (init connect conf p) = Some i"
  using assms by (simp add: init_def getInstance_def)

theorem init_idempotent_witness:
  "getInstance (init (\<lambda>cf. MockRedis) None initial) = Some MockRedis
   \<and> init (\<lambda>cf. MockRedis\<lparr>now := 5\<rparr>) (Some [(''host'', ''127.0.0.1'')])
         (init (\<lambda>cf. MockRedis) None initial)
       = init (\<lambda>cf. MockRedis) None initial
   \<and> getInstance (init (\<lambda>cf. MockRedis\<lparr>now := 5\<rparr>) (Some [(''host'', ''127.0.0.1'')])
         (init (\<lambda>cf. MockRedis) None initial))
       = Some MockRedis"
proof -
  have h: "getInstance (init (\<lambda>cf. MockRedis) None initial) = Some MockRedis"
    by (simp add: init_def getInstance_def initial_def new_RedisClient_def)
  show ?thesis
    using h init_idempotent [OF h, of "\<lambda>cf. MockRedis\<lparr>now := 5\<rparr>" "Some [(''host'', ''127.0.0.1'')]"]
    by simp
qed

text \<open>
  C10: before any call to \<^verbatim>\<open>init\<close>, \<^verbatim>\<open>getInstance()\<close> returns the unset static
  field, the absent value; it has no branch that raises.
\<close>

theorem getInstance_before_init:
  "getInstance initial = None"
  by (simp add: getInstance_def initial_def)

subsection \<open>Cache entries\<close>




subsection \<open>The registry\<close>

text \<open>
  C9: after \<^verbatim>\<open>register(kind, instance)\<close>, \<^verbatim>\<open>get(kind)\<close> returns exactly that
  instance; \<^verbatim>\<open>get\<close> of a kind that no registration named, after any sequence of
  registrations on a new manager, returns the absent value (\<^verbatim>\<open>get\<close> has no error
  result); and a second registration under the same kind replaces the first.
\<close>

theorem register_get:
  "CachedDataManager_get kind (register kind inst this) = Some inst
   \<and> (kind \<notin> fst ` set regs \<longrightarrow>
        CachedDataManager_get kind
          (fold (\<lambda>(c, i). register c i) regs new_CachedDataManager) = None)
   \<and> CachedDataManager_get kind (register kind inst2 (register kind inst1 this)) = Some inst2"
proof -
  have unregistered:
    "kind \<notin> fst ` set regs \<Longrightarrow>
       map' (fold (\<lambda>(c, i). register c i) regs m) kind = map' m kind" for m
    by (induction regs arbitrary: m) (auto simp: register_def)
  show ?thesis
    using unregistered [of new_CachedDataManager]
    by (simp add: CachedDataManager_get_def register_def new_CachedDataManager_def)
qed

theorem register_get_witness:
  "(3::nat) \<notin> fst ` set [(1, ''userCache''), (2, ''sessionCache'')]
   \<and> CachedDataManager_get (1::nat) (register 1 ''userCache'' new_CachedDataManager)
       = Some ''userCache''
   \<and> CachedDataManager_get (3::nat)
        (fold (\<lambda>(c, i). register c i) [(1, ''userCache''), (2, ''sessionCache'')]
           new_CachedDataManager) = None
   \<and> CachedDataManager_get (1::nat)
        (register 1 ''other'' (register 1 ''userCache'' new_CachedDataManager)) = Some ''other''"
proof -
  have h: "(3::nat) \<notin> fst ` set [(1, ''userCache''), (2, ''sessionCache'')]"
    by simp
  have a: "CachedDataManager_get (3::nat)
        (fold (\<lambda>(c, i). register c i) [(1, ''userCache''), (2, ''sessionCache'')]
           new_CachedDataManager) = None"
    using register_get [of "3::nat" "''x''" new_CachedDataManager
        "[(1, ''userCache''), (2, ''sessionCache'')]" "''y''" "''z''"] h
    by blast
  have b: "CachedDataManager_get (1::nat) (register 1 ''userCache'' new_CachedDataManager)
       = Some ''userCache''"
    using register_get [of "1::nat" "''userCache''" new_CachedDataManager "[]" "''y''" "''z''"]
    by blast
  have c: "CachedDataManager_get (1::nat)
        (register 1 ''other'' (register 1 ''userCache'' new_CachedDataManager)) = Some ''other''"
    using register_get [of "1::nat" "''x''" new_CachedDataManager "[]" "''other''" "''userCache''"]
    by blast
  show ?thesis
    using h a b c by blast
qed

end
